theory Spec2Isabelle
  imports Complex_Main "HOL-Library.Sublist"
begin

section \<open>JavaScript values and errors\<close>

text \<open>
  The analyzer returns what \<^verbatim>\<open>JSON.parse\<close> produced, field by field, so the fields of a
  result are JavaScript values, not yet values of the TypeScript types they are cast to.
  \<open>Undefined\<close> is what reading an absent property gives. Numbers are exact rationals:
  every quantity of the code below is a small multiple of a millisecond.
\<close>

datatype jsval =
    Undefined
  | Null
  | Bool bool
  | Num rat
  | Str string
  | Arr "jsval list"
  | Obj "(string \<times> jsval) list"

text \<open>The truthiness test behind \<^verbatim>\<open>x || y\<close> and \<^verbatim>\<open>!x\<close>.\<close>

fun truthy :: "jsval \<Rightarrow> bool" where
  "truthy Undefined = False"
| "truthy Null = False"
| "truthy (Bool b) = b"
| "truthy (Num n) = (n \<noteq> 0)"
| "truthy (Str s) = (s \<noteq> [])"
| "truthy (Arr xs) = True"
| "truthy (Obj kvs) = True"

text \<open>
  A thrown value, with the four readings the code takes of it: \<^verbatim>\<open>err.name\<close>,
  \<^verbatim>\<open>err.message\<close>, \<^verbatim>\<open>JSON.stringify(err)\<close> and \<^verbatim>\<open>String(err)\<close>.
\<close>

record js_error =
  ename :: string
  emessage :: string
  ejson :: string
  estring :: string

text \<open>\<^verbatim>\<open>new Error(msg)\<close>: its own properties are not enumerable, so it stringifies to \<^verbatim>\<open>{}\<close>.\<close>

definition newError :: "string \<Rightarrow> js_error" where
  "newError msg =
     \<lparr>ename = ''Error'', emessage = msg, ejson = ''{}'',
      estring = (if msg = [] then ''Error'' else ''Error: '' @ msg)\<rparr>"

text \<open>\<^verbatim>\<open>s.includes(sub)\<close>: \<open>sub\<close> occurs in \<open>s\<close> as a contiguous run of characters.\<close>

fun str_includes :: "string \<Rightarrow> string \<Rightarrow> bool" where
  "str_includes [] sub = (sub = [])"
| "str_includes (c # cs) sub = (prefix sub (c # cs) \<or> str_includes cs sub)"

section \<open>types.ts\<close>

record TrafficAnalysisResult =
  vehicleCount :: jsval
  congestionLevel :: jsval
  description :: jsval
  detectedObjects :: jsval
  timestamp :: string
  processedAt :: rat

section \<open>Component state\<close>

text \<open>
  One record holds the state cells of \<^verbatim>\<open>App\<close> (\<open>isAnalyzing\<close>, \<open>history\<close>,
  \<open>latestResult\<close>, \<open>error\<close>) and those of \<^verbatim>\<open>CameraFeed\<close> that the capture and the
  loop write: the two refs, the state cells and the timer. \<open>timeoutId = Some d\<close> says that
  a timer of \<open>d\<close> milliseconds that re-enters the loop is pending, \<open>None\<close> that none is.
\<close>

record state =
  isAnalyzing :: bool
  history :: "TrafficAnalysisResult list"
  latestResult :: "TrafficAnalysisResult option"
  error :: "string option"
  errorCountRef :: nat
  nextRetryTimeRef :: rat
  isStreamActive :: bool
  permissionDenied :: bool
  permissionErrorMsg :: string
  detectedBoxes :: jsval
  isRateLimited :: bool
  retryCountdown :: int
  timeoutId :: "rat option"

text \<open>The state of a freshly mounted application: every \<^verbatim>\<open>useState\<close> and \<^verbatim>\<open>useRef\<close> initial value.\<close>

definition initialState :: state where
  "initialState =
     \<lparr>isAnalyzing = False, history = [], latestResult = None, error = None,
      errorCountRef = 0, nextRetryTimeRef = 0, isStreamActive = False,
      permissionDenied = False, permissionErrorMsg = [], detectedBoxes = Arr [],
      isRateLimited = False, retryCountdown = 0, timeoutId = None\<rparr>"

section \<open>App.tsx\<close>

text \<open>\<^verbatim>\<open>xs.slice(-k)\<close> for a positive \<open>k\<close>: the last \<open>k\<close> elements, all of them when there are fewer.\<close>

definition slice_last :: "nat \<Rightarrow> 'a list \<Rightarrow> 'a list" where
  "slice_last k xs = drop (length xs - k) xs"

definition handleAnalysisComplete :: "TrafficAnalysisResult \<Rightarrow> state \<Rightarrow> state" where
  "handleAnalysisComplete result s =
     s\<lparr>latestResult := Some result,
       history := slice_last 50 (history s @ [result]),
       error := None\<rparr>"

definition handleError :: "string \<Rightarrow> state \<Rightarrow> state" where
  "handleError err s = s\<lparr>error := Some err, isAnalyzing := False\<rparr>"

definition toggleAnalysis :: "state \<Rightarrow> state" where
  "toggleAnalysis s =
     (if \<not> isAnalyzing s then s\<lparr>isAnalyzing := True, error := None\<rparr>
      else s\<lparr>isAnalyzing := False\<rparr>)"

text \<open>The three ways the state of \<^verbatim>\<open>App\<close> changes, and a run of them from the initial state.\<close>

datatype app_event =
    AnalysisComplete TrafficAnalysisResult
  | ErrorRaised string
  | Toggle

fun app_step :: "state \<Rightarrow> app_event \<Rightarrow> state" where
  "app_step s (AnalysisComplete r) = handleAnalysisComplete r s"
| "app_step s (ErrorRaised msg) = handleError msg s"
| "app_step s Toggle = toggleAnalysis s"

definition app_run :: "app_event list \<Rightarrow> state" where
  "app_run evs = foldl app_step initialState evs"

text \<open>\<open>latestResult\<close> is the last element of \<open>history\<close>, and is null when there is none.\<close>

definition latest_agrees :: "state \<Rightarrow> bool" where
  "latest_agrees s =
     (case history s of
        [] \<Rightarrow> latestResult s = None
      | _ # _ \<Rightarrow> latestResult s = Some (last (history s)))"

section \<open>services/geminiService.ts\<close>

text \<open>
  What \<^verbatim>\<open>analyzeTrafficFrame\<close> reads from outside: the credential
  \<^verbatim>\<open>process.env.API_KEY\<close>, the awaited service call (it rejects with an error or resolves
  with a response whose \<^verbatim>\<open>text\<close> may be absent), \<^verbatim>\<open>JSON.parse\<close>, and the clock.
\<close>

record service_env =
  apiKey :: "string option"
  generateContent :: "string \<Rightarrow> js_error + string option"
  JSON_parse :: "string \<Rightarrow> js_error + jsval"
  toLocaleTimeString :: string
  dateNow :: rat

text \<open>\<^verbatim>\<open>!x\<close> for an optional string: absent or empty.\<close>

definition absent :: "string option \<Rightarrow> bool" where
  "absent x = (case x of None \<Rightarrow> True | Some t \<Rightarrow> t = [])"

text \<open>
  \<^verbatim>\<open>json.k\<close>. Reading a property of \<^verbatim>\<open>null\<close> throws a TypeError; a primitive or an
  array has none of the four properties read here.
\<close>

definition nullTypeError :: js_error where
  "nullTypeError =
     \<lparr>ename = ''TypeError'', emessage = ''Cannot read properties of null'',
      ejson = ''{}'', estring = ''TypeError: Cannot read properties of null''\<rparr>"

fun property :: "jsval \<Rightarrow> string \<Rightarrow> jsval" where
  "property (Obj kvs) k = (case map_of kvs k of None \<Rightarrow> Undefined | Some v \<Rightarrow> v)"
| "property v k = Undefined"

definition throwsOnRead :: "jsval \<Rightarrow> bool" where
  "throwsOnRead json = (json = Null \<or> json = Undefined)"

text \<open>The object literal returned on success.\<close>

definition buildResult :: "service_env \<Rightarrow> jsval \<Rightarrow> TrafficAnalysisResult" where
  "buildResult env json =
     \<lparr>vehicleCount = property json ''vehicleCount'',
      congestionLevel = property json ''congestionLevel'',
      description = property json ''description'',
      detectedObjects =
        (if truthy (property json ''detectedObjects'') then property json ''detectedObjects''
         else Arr []),
      timestamp = toLocaleTimeString env,
      processedAt = dateNow env\<rparr>"

text \<open>The body of the \<^verbatim>\<open>try\<close> block.\<close>

definition requestAndParse :: "service_env \<Rightarrow> string \<Rightarrow> js_error + TrafficAnalysisResult" where
  "requestAndParse env base64Image =
     (case generateContent env base64Image of
        Inl e \<Rightarrow> Inl e
      | Inr None \<Rightarrow> Inl (newError ''No response from Gemini'')
      | Inr (Some text) \<Rightarrow>
          if text = [] then Inl (newError ''No response from Gemini'')
          else (case JSON_parse env text of
                  Inl e \<Rightarrow> Inl e
                | Inr json \<Rightarrow>
                    if throwsOnRead json then Inl nullTypeError
                    else Inr (buildResult env json)))"

text \<open>The \<^verbatim>\<open>catch\<close> block: a quota marker in the message replaces the error.\<close>

definition serviceQuotaMarker :: "string \<Rightarrow> bool" where
  "serviceQuotaMarker errorMessage =
     (str_includes errorMessage ''429''
      \<or> str_includes errorMessage ''RESOURCE_EXHAUSTED''
      \<or> str_includes errorMessage ''quota''
      \<or> str_includes errorMessage ''exceeded'')"

definition serviceCatch :: "js_error \<Rightarrow> js_error" where
  "serviceCatch e =
     (let errorMessage = (if emessage e \<noteq> [] then emessage e else estring e)
      in if serviceQuotaMarker errorMessage then newError ''QUOTA_EXCEEDED'' else e)"

definition analyzeTrafficFrame :: "service_env \<Rightarrow> string \<Rightarrow> js_error + TrafficAnalysisResult" where
  "analyzeTrafficFrame env base64Image =
     (if absent (apiKey env)
      then Inl (newError ''API Key not found in environment variables.'')
      else (case requestAndParse env base64Image of
              Inl e \<Rightarrow> Inl (serviceCatch e)
            | Inr result \<Rightarrow> Inr result))"

text \<open>
  The schema the request sends with it, as a predicate on a result: a count that is a
  non-negative integer, one of the three congestion strings, a string, an array.
\<close>

definition isCount :: "jsval \<Rightarrow> bool" where
  "isCount v = (case v of Num n \<Rightarrow> 0 \<le> n \<and> n = of_int \<lfloor>n\<rfloor> | _ \<Rightarrow> False)"

definition isLevel :: "jsval \<Rightarrow> bool" where
  "isLevel v = (v = Str ''Low'' \<or> v = Str ''Medium'' \<or> v = Str ''High'')"

definition isStr :: "jsval \<Rightarrow> bool" where
  "isStr v = (case v of Str t \<Rightarrow> True | _ \<Rightarrow> False)"

definition isArr :: "jsval \<Rightarrow> bool" where
  "isArr v = (case v of Arr xs \<Rightarrow> True | _ \<Rightarrow> False)"

definition fullyTyped :: "TrafficAnalysisResult \<Rightarrow> bool" where
  "fullyTyped r =
     (isCount (vehicleCount r) \<and> isLevel (congestionLevel r)
      \<and> isStr (description r) \<and> isArr (detectedObjects r))"

section \<open>components/CameraFeed.tsx: capture\<close>

text \<open>
  The values a render closes over: the props \<open>isAnalyzing\<close> and \<open>intervalMs\<close> and the
  state cell \<open>isStreamActive\<close>, as they were when the effect ran.
\<close>

record closure =
  cIsAnalyzing :: bool
  cIsStreamActive :: bool
  intervalMs :: rat

text \<open>
  What drawing the frame gives: no video, canvas or context to draw with; an exception
  from \<^verbatim>\<open>drawImage\<close> or \<^verbatim>\<open>toDataURL\<close>; or the base64 image.
\<close>

datatype capture = NoSurface | CaptureThrows js_error | Frame string

definition corsMessage :: string where
  "corsMessage = ''CORS Error: Cannot analyze this video stream. The server must allow cross-origin access (Access-Control-Allow-Origin).''"

text \<open>The \<^verbatim>\<open>catch\<close> of \<^verbatim>\<open>captureAndAnalyze\<close>: \<open>Inl\<close> is the error thrown on to the loop.\<close>

definition captureCatch :: "js_error \<Rightarrow> state \<Rightarrow> js_error + state" where
  "captureCatch err s =
     (if ename err = ''SecurityError'' then Inr (handleError corsMessage s) else Inl err)"

definition captureAndAnalyze :: "closure \<Rightarrow> service_env \<Rightarrow> capture \<Rightarrow> state \<Rightarrow> js_error + state" where
  "captureAndAnalyze c env cap s =
     (if \<not> cIsStreamActive c then Inr s
      else (case cap of
              NoSurface \<Rightarrow> Inr s
            | CaptureThrows err \<Rightarrow> captureCatch err s
            | Frame base64Image \<Rightarrow>
                (case analyzeTrafficFrame env base64Image of
                   Inl err \<Rightarrow> captureCatch err s
                 | Inr result \<Rightarrow>
                     Inr (handleAnalysisComplete result
                            (s\<lparr>detectedBoxes := detectedObjects result,
                               isRateLimited := False\<rparr>)))))"

text \<open>The failure branch of \<^verbatim>\<open>startCamera\<close>, for an error named \<open>name\<close>.\<close>

definition cameraErrorMessage :: "string \<Rightarrow> string" where
  "cameraErrorMessage name =
     (if name = ''NotAllowedError'' \<or> name = ''PermissionDeniedError''
      then ''Camera permission denied. Please allow access in your browser settings (lock icon).''
      else if name = ''NotFoundError'' then ''No camera device found.''
      else if name = ''NotReadableError''
      then ''Camera is currently in use by another application.''
      else ''Could not access camera.'')"

definition startCameraFailed :: "js_error \<Rightarrow> state \<Rightarrow> state" where
  "startCameraFailed err s =
     handleError (cameraErrorMessage (ename err))
       (s\<lparr>permissionDenied := True, isStreamActive := False,
          permissionErrorMsg := cameraErrorMessage (ename err)\<rparr>)"

definition handleForceRetry :: "state \<Rightarrow> state" where
  "handleForceRetry s = s\<lparr>errorCountRef := 0, nextRetryTimeRef := 0, isRateLimited := False\<rparr>"

section \<open>components/CameraFeed.tsx: the analysis loop\<close>

text \<open>
  \<^verbatim>\<open>Math.min(10000 * Math.pow(2, n - 1), 120000)\<close>, with \<open>n\<close> the error count after
  its increment. The exponent is an integer, negative at \<open>n = 0\<close>. Where the
  floating-point power overflows to infinity the minimum is the ceiling, as it is here.
\<close>

definition backoffMs :: "nat \<Rightarrow> rat" where
  "backoffMs n = min (10000 * (2 powi (int n - 1))) 120000"

definition loopQuotaMarker :: "js_error \<Rightarrow> bool" where
  "loopQuotaMarker err =
     (let errorMessage = (if emessage err \<noteq> [] then emessage err else ejson err)
      in str_includes errorMessage ''QUOTA_EXCEEDED''
         \<or> str_includes errorMessage ''429''
         \<or> str_includes errorMessage ''RESOURCE_EXHAUSTED'')"

text \<open>The eligibility check: \<^verbatim>\<open>Date.now() < nextRetryTimeRef.current\<close> sends the loop back to wait.\<close>

definition mustWait :: "rat \<Rightarrow> state \<Rightarrow> bool" where
  "mustWait now s = (now < nextRetryTimeRef s)"

text \<open>
  The \<^verbatim>\<open>try\<close>/\<^verbatim>\<open>catch\<close> of \<^verbatim>\<open>loop\<close>: the capture and what follows its outcome.
  \<open>later\<close> is \<^verbatim>\<open>Date.now()\<close> in the quota branch, after the await; \<open>isMounted\<close> is the
  flag as the code finds it after the await.
\<close>

definition cycle :: "closure \<Rightarrow> service_env \<Rightarrow> capture \<Rightarrow> rat \<Rightarrow> bool \<Rightarrow> state \<Rightarrow> state" where
  "cycle c env cap later isMounted s =
     (case captureAndAnalyze c env cap s of
        Inr s' \<Rightarrow>
          if isMounted \<and> cIsAnalyzing c
          then s'\<lparr>errorCountRef := 0, isRateLimited := False,
                  timeoutId := Some (intervalMs c)\<rparr>
          else s'
      | Inl err \<Rightarrow>
          if isMounted \<and> cIsAnalyzing c
          then (if loopQuotaMarker err
                then (let n = errorCountRef s + 1; b = backoffMs n
                      in s\<lparr>errorCountRef := n,
                           nextRetryTimeRef := later + b,
                           isRateLimited := True,
                           retryCountdown := \<lceil>b / 1000\<rceil>,
                           timeoutId := Some b\<rparr>)
                else s\<lparr>timeoutId := Some (intervalMs c * (3 / 2))\<rparr>)
          else s)"

text \<open>
  One run of \<^verbatim>\<open>loop\<close>, from its call to the last statement it executes. \<open>now\<close> is
  \<^verbatim>\<open>Date.now()\<close> at the eligibility check. The timer that called it has fired, so none
  is pending until the run sets one.
\<close>

definition loop :: "closure \<Rightarrow> service_env \<Rightarrow> capture \<Rightarrow> rat \<Rightarrow> rat \<Rightarrow> bool \<Rightarrow> state \<Rightarrow> state" where
  "loop c env cap now later isMounted s0 =
     (let s = s0\<lparr>timeoutId := None\<rparr> in
      if \<not> cIsAnalyzing c \<or> \<not> cIsStreamActive c then s
      else if mustWait now s then s\<lparr>timeoutId := Some 1000\<rparr>
      else cycle c env cap later isMounted s)"

text \<open>
  The body of the effect that owns the loop, run after the cleanup of the previous one
  has cancelled its timer: it either enters the loop or, when analysis is off or the
  stream inactive, resets the refs and the flag. That reset ends a run of the loop.
\<close>

definition loopEffect :: "closure \<Rightarrow> service_env \<Rightarrow> capture \<Rightarrow> rat \<Rightarrow> rat \<Rightarrow> bool \<Rightarrow> state \<Rightarrow> state" where
  "loopEffect c env cap now later isMounted s =
     (if cIsAnalyzing c \<and> cIsStreamActive c then loop c env cap now later isMounted s
      else s\<lparr>errorCountRef := 0, nextRetryTimeRef := 0, isRateLimited := False,
             timeoutId := None\<rparr>)"

text \<open>
  What React does after a state change: it renders again, and when one of the effect's
  dependencies \<^verbatim>\<open>[isAnalyzing, isStreamActive, intervalMs, captureAndAnalyze, isRateLimited]\<close>
  differs from the render the effect last ran in, the cleanup of that effect clears its
  timer and the body runs in the new closure. \<open>intervalMs\<close> is a constant of \<^verbatim>\<open>App\<close>,
  and \<^verbatim>\<open>captureAndAnalyze\<close> changes only with \<open>isStreamActive\<close>. \<open>c\<close> and \<open>wasRateLimited\<close>
  are the closure and the flag of the render the effect last ran in.
\<close>

definition render :: "rat \<Rightarrow> state \<Rightarrow> closure" where
  "render interval s =
     \<lparr>cIsAnalyzing = isAnalyzing s, cIsStreamActive = isStreamActive s, intervalMs = interval\<rparr>"

definition effectAfterRender ::
  "closure \<Rightarrow> bool \<Rightarrow> service_env \<Rightarrow> capture \<Rightarrow> rat \<Rightarrow> rat \<Rightarrow> bool \<Rightarrow> state \<Rightarrow> state" where
  "effectAfterRender c wasRateLimited env cap now later isMounted s =
     (if isAnalyzing s \<noteq> cIsAnalyzing c \<or> isStreamActive s \<noteq> cIsStreamActive c
         \<or> isRateLimited s \<noteq> wasRateLimited
      then loopEffect (render (intervalMs c) s) env cap now later isMounted
             (s\<lparr>timeoutId := None\<rparr>)
      else s)"

text \<open>What can happen to a running loop: one more run of it, or the manual override.\<close>

datatype loop_event =
    Cycle service_env capture rat rat bool
  | ForceRetry

fun loop_step :: "closure \<Rightarrow> state \<Rightarrow> loop_event \<Rightarrow> state" where
  "loop_step c s (Cycle env cap now later isMounted) = loop c env cap now later isMounted s"
| "loop_step c s ForceRetry = handleForceRetry s"

text \<open>A step that is not the override: a run of the loop, on a clock that does not go back.\<close>

fun ordinaryStep :: "loop_event \<Rightarrow> bool" where
  "ordinaryStep (Cycle env cap now later isMounted) = (now \<le> later)"
| "ordinaryStep ForceRetry = False"

text \<open>The error raised inside the \<^verbatim>\<open>try\<close> of \<^verbatim>\<open>captureAndAnalyze\<close>, if any.\<close>

definition raisedInCapture :: "service_env \<Rightarrow> capture \<Rightarrow> js_error option" where
  "raisedInCapture env cap =
     (case cap of
        NoSurface \<Rightarrow> None
      | CaptureThrows err \<Rightarrow> Some err
      | Frame base64Image \<Rightarrow>
          (case analyzeTrafficFrame env base64Image of Inl err \<Rightarrow> Some err | Inr r \<Rightarrow> None))"

subsection \<open>The loop of the earlier revision\<close>

text \<open>
  The file kept as \<^verbatim>\<open>src/components/CameraFeed.tsx\<close> has the same capture and the same
  loop without the retry time, the countdown and the override, and with other constants:
  \<^verbatim>\<open>Math.min(30000 * Math.pow(2, n - 1), 300000)\<close>.
\<close>

definition backoffMs_cf :: "nat \<Rightarrow> rat" where
  "backoffMs_cf n = min (30000 * (2 powi (int n - 1))) 300000"

definition loop_cf :: "closure \<Rightarrow> service_env \<Rightarrow> capture \<Rightarrow> bool \<Rightarrow> state \<Rightarrow> state" where
  "loop_cf c env cap isMounted s0 =
     (let s = s0\<lparr>timeoutId := None\<rparr> in
      if \<not> cIsAnalyzing c \<or> \<not> cIsStreamActive c then s
      else (case captureAndAnalyze c env cap s of
              Inr s' \<Rightarrow>
                if isMounted \<and> cIsAnalyzing c
                then s'\<lparr>errorCountRef := 0, isRateLimited := False,
                        timeoutId := Some (intervalMs c)\<rparr>
                else s'
            | Inl err \<Rightarrow>
                if isMounted \<and> cIsAnalyzing c
                then (if loopQuotaMarker err
                      then (let n = errorCountRef s + 1; b = backoffMs_cf n
                            in s\<lparr>errorCountRef := n, isRateLimited := True,
                                 timeoutId := Some b\<rparr>)
                      else s\<lparr>timeoutId := Some (intervalMs c * (3 / 2))\<rparr>)
                else s))"

section \<open>Concrete inputs\<close>

text \<open>
  The closure \<^verbatim>\<open>App\<close> gives the feed while analysis is on (\<^verbatim>\<open>intervalMs={20000}\<close>), a
  state in which the loop runs, a service environment built from a credential, a service
  outcome and a parse outcome, and a well-formed result.
\<close>

definition appClosure :: closure where
  "appClosure = \<lparr>cIsAnalyzing = True, cIsStreamActive = True, intervalMs = 20000\<rparr>"

definition runningState :: state where
  "runningState = initialState\<lparr>isAnalyzing := True, isStreamActive := True\<rparr>"

definition serviceEnv ::
  "string option \<Rightarrow> js_error + string option \<Rightarrow> js_error + jsval \<Rightarrow> service_env" where
  "serviceEnv key response parsed =
     \<lparr>apiKey = key, generateContent = (\<lambda>image. response), JSON_parse = (\<lambda>text. parsed),
      toLocaleTimeString = ''12:00:00'', dateNow = 1700000000000\<rparr>"

definition sampleResult :: "nat \<Rightarrow> TrafficAnalysisResult" where
  "sampleResult i =
     \<lparr>vehicleCount = Num (of_nat i), congestionLevel = Str ''Medium'',
      description = Str ''steady flow'', detectedObjects = Arr [],
      timestamp = ''12:00:00'', processedAt = of_nat i\<rparr>"

text \<open>A service that answers every request with a rate-limit error.\<close>

definition quotaEnv :: service_env where
  "quotaEnv = serviceEnv (Some ''key'')
     (Inl (newError ''got status: 429 Too Many Requests'')) (Inr Null)"

text \<open>
  A service that answers with a complete object (the response text is whatever
  \<open>JSON_parse\<close> turns into that object), one whose request fails on the network, one
  whose answer is an object with no field at all, and an environment with no credential.
\<close>

definition okEnv :: service_env where
  "okEnv = serviceEnv (Some ''key'') (Inr (Some ''{...}''))
     (Inr (Obj [(''vehicleCount'', Num 5), (''congestionLevel'', Str ''Medium''),
                (''description'', Str ''steady flow''), (''detectedObjects'', Arr [])]))"

definition networkEnv :: service_env where
  "networkEnv = serviceEnv (Some ''key'') (Inl (newError ''Failed to fetch'')) (Inr Null)"

definition emptyObjectEnv :: service_env where
  "emptyObjectEnv = serviceEnv (Some ''key'') (Inr (Some ''{}'')) (Inr (Obj []))"

definition noKeyEnv :: service_env where
  "noKeyEnv = serviceEnv None (Inr (Some ''{}'')) (Inr (Obj []))"

text \<open>A state waiting under backoff after three quota failures.\<close>

definition backedOffState :: state where
  "backedOffState =
     runningState\<lparr>errorCountRef := 3, nextRetryTimeRef := 45000, isRateLimited := True,
                  retryCountdown := 40, timeoutId := Some 40000\<rparr>"

text \<open>The exception a browser raises when a tainted canvas is read.\<close>

definition corsError :: js_error where
  "corsError =
     \<lparr>ename = ''SecurityError'', emessage = ''The canvas has been tainted by cross-origin data.'',
      ejson = ''{}'', estring = ''SecurityError: The canvas has been tainted by cross-origin data.''\<rparr>"

section \<open>The history buffer\<close>

lemma slice_last_length: "length (slice_last k xs) = min k (length xs)"
  by (simp add: slice_last_def)

lemma slice_last_short: "length xs \<le> k \<Longrightarrow> slice_last k xs = xs"
  by (simp add: slice_last_def)

lemma slice_last_snoc_full: "length xs = Suc k \<Longrightarrow> slice_last (Suc k) (xs @ [x]) = tl xs @ [x]"
  by (cases xs) (simp_all add: slice_last_def)

lemma slice_last_snoc_last: "0 < k \<Longrightarrow> last (slice_last k (xs @ [x])) = x"
  by (simp add: slice_last_def)

lemma slice_last_snoc_nonempty: "0 < k \<Longrightarrow> slice_last k (xs @ [x]) \<noteq> []"
  by (simp add: slice_last_def)

lemma history_app_step:
  "length (history s) \<le> 50 \<Longrightarrow> length (history (app_step s ev)) \<le> 50"
  by (cases ev)
     (simp_all add: handleAnalysisComplete_def handleError_def toggleAnalysis_def
        slice_last_length)

lemma history_foldl:
  "length (history s) \<le> 50 \<Longrightarrow> length (history (foldl app_step s evs)) \<le> 50"
  by (induction evs arbitrary: s) (simp_all add: history_app_step)

lemma latest_agrees_complete: "latest_agrees (handleAnalysisComplete r s)"
proof -
  let ?h = "slice_last 50 (history s @ [r])"
  have ne: "?h \<noteq> []" by (rule slice_last_snoc_nonempty) simp
  have "last ?h = r" by (rule slice_last_snoc_last) simp
  with ne show ?thesis
    by (cases ?h) (simp_all add: latest_agrees_def handleAnalysisComplete_def)
qed

lemma latest_agrees_app_step: "latest_agrees s \<Longrightarrow> latest_agrees (app_step s ev)"
proof (cases ev)
  case (AnalysisComplete r)
  then show ?thesis by (simp add: latest_agrees_complete)
next
  case (ErrorRaised msg)
  assume "latest_agrees s"
  with ErrorRaised show ?thesis
    by (simp add: latest_agrees_def handleError_def split: list.splits)
next
  case Toggle
  assume "latest_agrees s"
  with Toggle show ?thesis
    by (simp add: latest_agrees_def toggleAnalysis_def split: list.splits)
qed

lemma latest_agrees_foldl: "latest_agrees s \<Longrightarrow> latest_agrees (foldl app_step s evs)"
  by (induction evs arbitrary: s) (simp_all add: latest_agrees_app_step)

text \<open>
  C3. The history never holds more than 50 results, whatever was appended: after any run
  of the application from its initial state, and after any single append. An append to a
  history of 50 drops exactly its oldest (first) entry and keeps the other 49 in order,
  followed by the new result; an append to a shorter history drops nothing.
\<close>

theorem history_capped_fifo:
  "length (history (app_run evs)) \<le> 50
   \<and> length (history (handleAnalysisComplete r s)) \<le> 50
   \<and> (length (history s) = 50 \<longrightarrow>
        history (handleAnalysisComplete r s) = tl (history s) @ [r]
        \<and> length (history (handleAnalysisComplete r s)) = 50)
   \<and> (length (history s) < 50 \<longrightarrow>
        history (handleAnalysisComplete r s) = history s @ [r])"
proof (intro conjI impI)
  show "length (history (app_run evs)) \<le> 50"
    unfolding app_run_def by (rule history_foldl) (simp add: initialState_def)
  show "length (history (handleAnalysisComplete r s)) \<le> 50"
    by (simp add: handleAnalysisComplete_def slice_last_length)
next
  assume full: "length (history s) = 50"
  then have "length (history s) = Suc 49" by simp
  then have "slice_last (Suc 49) (history s @ [r]) = tl (history s) @ [r]"
    by (rule slice_last_snoc_full)
  then show "history (handleAnalysisComplete r s) = tl (history s) @ [r]"
    by (simp add: handleAnalysisComplete_def)
  from full show "length (history (handleAnalysisComplete r s)) = 50"
    by (simp add: handleAnalysisComplete_def slice_last_length)
next
  assume "length (history s) < 50"
  then have "slice_last 50 (history s @ [r]) = history s @ [r]"
    by (intro slice_last_short) simp
  then show "history (handleAnalysisComplete r s) = history s @ [r]"
    by (simp add: handleAnalysisComplete_def)
qed

theorem history_capped_fifo_witness:
  "length (history (runningState\<lparr>history := map sampleResult [0..<50]\<rparr>)) = 50
   \<and> history (handleAnalysisComplete (sampleResult 50)
        (runningState\<lparr>history := map sampleResult [0..<50]\<rparr>))
       = tl (map sampleResult [0..<50]) @ [sampleResult 50]
   \<and> length (history (handleAnalysisComplete (sampleResult 50)
        (runningState\<lparr>history := map sampleResult [0..<50]\<rparr>))) = 50
   \<and> history (handleAnalysisComplete (sampleResult 0) runningState) = [sampleResult 0]"
  using history_capped_fifo [where s = "runningState\<lparr>history := map sampleResult [0..<50]\<rparr>"
      and r = "sampleResult 50" and evs = "[]"]
    history_capped_fifo [where s = runningState and r = "sampleResult 0" and evs = "[]"]
  by (simp add: runningState_def initialState_def)

text \<open>
  C10. In every state the application reaches from its initial one, \<open>latestResult\<close> is
  null when the history is empty and is otherwise the last element of the history. The
  handler of a completed analysis sets \<open>latestResult\<close> to the result and appends the same
  result in the same update, which gives the agreement from any state at all.
\<close>

theorem latest_is_last_of_history:
  "latest_agrees (app_run evs)
   \<and> latest_agrees (handleAnalysisComplete r s)
   \<and> latestResult (handleAnalysisComplete r s) = Some r
   \<and> history (handleAnalysisComplete r s) \<noteq> []
   \<and> last (history (handleAnalysisComplete r s)) = r"
proof (intro conjI)
  show "latest_agrees (app_run evs)"
    unfolding app_run_def
    by (rule latest_agrees_foldl) (simp add: latest_agrees_def initialState_def)
  show "latest_agrees (handleAnalysisComplete r s)"
    by (rule latest_agrees_complete)
  show "latestResult (handleAnalysisComplete r s) = Some r"
    by (simp add: handleAnalysisComplete_def)
  show "history (handleAnalysisComplete r s) \<noteq> []"
    by (simp add: handleAnalysisComplete_def slice_last_snoc_nonempty)
  show "last (history (handleAnalysisComplete r s)) = r"
    by (simp add: handleAnalysisComplete_def slice_last_snoc_last)
qed

theorem latest_is_last_of_history_witness:
  "latestResult (app_run []) = None \<and> history (app_run []) = []
   \<and> latestResult (app_run [Toggle, AnalysisComplete (sampleResult 1),
        AnalysisComplete (sampleResult 2), ErrorRaised ''stop''])
       = Some (sampleResult 2)
   \<and> last (history (app_run [Toggle, AnalysisComplete (sampleResult 1),
        AnalysisComplete (sampleResult 2), ErrorRaised ''stop''])) = sampleResult 2"
  using latest_is_last_of_history [where evs = "[]" and r = "sampleResult 1" and s = initialState]
    latest_is_last_of_history [where evs = "[Toggle, AnalysisComplete (sampleResult 1),
        AnalysisComplete (sampleResult 2), ErrorRaised ''stop'']" and r = "sampleResult 1"
        and s = initialState]
  by (simp add: app_run_def initialState_def handleAnalysisComplete_def handleError_def
      toggleAnalysis_def slice_last_def latest_agrees_def)

section \<open>The backoff delay\<close>

lemma backoffMs_eq: "1 \<le> n \<Longrightarrow> backoffMs n = min (10000 * 2 ^ (n - 1)) 120000"
proof -
  assume "1 \<le> n"
  then have "int n - 1 = int (n - 1)" by simp
  then show ?thesis by (simp only: backoffMs_def power_int_of_nat)
qed

lemma backoffMs_cf_eq: "1 \<le> n \<Longrightarrow> backoffMs_cf n = min (30000 * 2 ^ (n - 1)) 300000"
proof -
  assume "1 \<le> n"
  then have "int n - 1 = int (n - 1)" by simp
  then show ?thesis by (simp only: backoffMs_cf_def power_int_of_nat)
qed

lemma backoffMs_pos: "0 < backoffMs n"
  by (simp add: backoffMs_def)

lemma backoffMs_le: "backoffMs n \<le> 120000"
  by (simp add: backoffMs_def)

lemma backoffMs_cf_le: "backoffMs_cf n \<le> 300000"
  by (simp add: backoffMs_cf_def)

lemma backoffMs_5: "backoffMs 5 = 120000" 
  by (simp add: backoffMs_def)

lemma backoffMs_cf_5: "backoffMs_cf 5 = 300000" 
  by (simp add: backoffMs_cf_def)

lemma backoffMs_1: "backoffMs 1 = 10000" "backoffMs_cf 1 = 30000"
  by (simp_all add: backoffMs_def backoffMs_cf_def)

section \<open>Errors that reach the loop\<close>

text \<open>What \<^verbatim>\<open>captureAndAnalyze\<close> throws does not depend on the state it runs in.\<close>

lemma captureAndAnalyze_throws_any:
  "captureAndAnalyze c env cap s = Inl e \<Longrightarrow> captureAndAnalyze c env cap s' = Inl e"
  by (auto simp: captureAndAnalyze_def captureCatch_def split: if_splits capture.splits sum.splits)

lemma loop_quota:
  assumes "cIsAnalyzing c" "cIsStreamActive c" "\<not> mustWait now s" "isMounted"
    and "captureAndAnalyze c env cap s = Inl err" "loopQuotaMarker err"
  shows "loop c env cap now later isMounted s =
           s\<lparr>timeoutId := None\<rparr>
            \<lparr>errorCountRef := errorCountRef s + 1,
             nextRetryTimeRef := later + backoffMs (errorCountRef s + 1),
             isRateLimited := True,
             retryCountdown := \<lceil>backoffMs (errorCountRef s + 1) / 1000\<rceil>,
             timeoutId := Some (backoffMs (errorCountRef s + 1))\<rparr>"
proof -
  have "captureAndAnalyze c env cap (s\<lparr>timeoutId := None\<rparr>) = Inl err"
    using assms(5) by (rule captureAndAnalyze_throws_any)
  with assms show ?thesis
    by (simp add: loop_def cycle_def mustWait_def Let_def)
qed

lemma loop_other:
  assumes "cIsAnalyzing c" "cIsStreamActive c" "\<not> mustWait now s" "isMounted"
    and "captureAndAnalyze c env cap s = Inl err" "\<not> loopQuotaMarker err"
  shows "loop c env cap now later isMounted s = s\<lparr>timeoutId := Some (intervalMs c * (3 / 2))\<rparr>"
proof -
  have "captureAndAnalyze c env cap (s\<lparr>timeoutId := None\<rparr>) = Inl err"
    using assms(5) by (rule captureAndAnalyze_throws_any)
  with assms show ?thesis
    by (simp add: loop_def cycle_def mustWait_def Let_def)
qed

lemma loop_cf_quota:
  assumes "cIsAnalyzing c" "cIsStreamActive c" "isMounted"
    and "captureAndAnalyze c env cap s = Inl err" "loopQuotaMarker err"
  shows "loop_cf c env cap isMounted s =
           s\<lparr>timeoutId := None\<rparr>
            \<lparr>errorCountRef := errorCountRef s + 1,
             isRateLimited := True,
             timeoutId := Some (backoffMs_cf (errorCountRef s + 1))\<rparr>"
proof -
  have "captureAndAnalyze c env cap (s\<lparr>timeoutId := None\<rparr>) = Inl err"
    using assms(4) by (rule captureAndAnalyze_throws_any)
  with assms show ?thesis
    by (simp add: loop_cf_def Let_def)
qed

lemma loop_cf_other:
  assumes "cIsAnalyzing c" "cIsStreamActive c" "isMounted"
    and "captureAndAnalyze c env cap s = Inl err" "\<not> loopQuotaMarker err"
  shows "loop_cf c env cap isMounted s = s\<lparr>timeoutId := Some (intervalMs c * (3 / 2))\<rparr>"
proof -
  have "captureAndAnalyze c env cap (s\<lparr>timeoutId := None\<rparr>) = Inl err"
    using assms(4) by (rule captureAndAnalyze_throws_any)
  with assms show ?thesis
    by (simp add: loop_cf_def Let_def)
qed


lemma backoffMs_strict:
  assumes "1 \<le> m" "m < n" "backoffMs m < 120000"
  shows "backoffMs m < backoffMs n"
proof -
  have "m - 1 < n - 1" using assms by simp
  then have p: "(2::rat) ^ (m - 1) < 2 ^ (n - 1)" by simp
  have em: "backoffMs m = min (10000 * 2 ^ (m - 1)) 120000"
    using assms by (simp add: backoffMs_eq)
  have en: "backoffMs n = min (10000 * 2 ^ (n - 1)) 120000"
    using assms by (simp add: backoffMs_eq)
  from p em en assms(3) show ?thesis by linarith
qed

lemma backoffMs_const:
  assumes "1 \<le> m" "m \<le> n" "backoffMs m = 120000"
  shows "backoffMs n = 120000"
proof -
  have "m - 1 \<le> n - 1" using assms by simp
  then have p: "(2::rat) ^ (m - 1) \<le> 2 ^ (n - 1)" by simp
  have em: "backoffMs m = min (10000 * 2 ^ (m - 1)) 120000"
    using assms by (simp add: backoffMs_eq)
  have en: "backoffMs n = min (10000 * 2 ^ (n - 1)) 120000"
    using assms by (simp add: backoffMs_eq)
  from p em en assms(3) show ?thesis by linarith
qed

lemma backoffMs_cf_strict:
  assumes "1 \<le> m" "m < n" "backoffMs_cf m < 300000"
  shows "backoffMs_cf m < backoffMs_cf n"
proof -
  have "m - 1 < n - 1" using assms by simp
  then have p: "(2::rat) ^ (m - 1) < 2 ^ (n - 1)" by simp
  have em: "backoffMs_cf m = min (30000 * 2 ^ (m - 1)) 300000"
    using assms by (simp add: backoffMs_cf_eq)
  have en: "backoffMs_cf n = min (30000 * 2 ^ (n - 1)) 300000"
    using assms by (simp add: backoffMs_cf_eq)
  from p em en assms(3) show ?thesis by linarith
qed

lemma backoffMs_cf_const:
  assumes "1 \<le> m" "m \<le> n" "backoffMs_cf m = 300000"
  shows "backoffMs_cf n = 300000"
proof -
  have "m - 1 \<le> n - 1" using assms by simp
  then have p: "(2::rat) ^ (m - 1) \<le> 2 ^ (n - 1)" by simp
  have em: "backoffMs_cf m = min (30000 * 2 ^ (m - 1)) 300000"
    using assms by (simp add: backoffMs_cf_eq)
  have en: "backoffMs_cf n = min (30000 * 2 ^ (n - 1)) 300000"
    using assms by (simp add: backoffMs_cf_eq)
  from p em en assms(3) show ?thesis by linarith
qed

text \<open>
  C1. For every number \<open>n \<ge> 1\<close> of consecutive quota failures the backoff is
  \<open>min (floor * 2 ^ (n - 1)) ceiling\<close> milliseconds: with floor 10 s and ceiling 2 min
  in the current loop, floor 30 s and ceiling 5 min in the earlier revision. It is
  strictly smaller than every later backoff as long as it is below the ceiling, and once
  it equals the ceiling every later backoff equals it too. A run of the loop that fails
  with a quota error from a counter of \<open>n - 1\<close> sets the counter to \<open>n\<close>, schedules its
  re-entry after exactly that delay and (current loop) sets the retry time to the clock
  plus that delay.
\<close>

theorem backoff_doubles_to_ceiling:
  assumes "1 \<le> n"
  shows "backoffMs n = min (10000 * 2 ^ (n - 1)) 120000
       \<and> (n < k \<and> backoffMs n < 120000 \<longrightarrow> backoffMs n < backoffMs k)
       \<and> (n \<le> k \<and> backoffMs n = 120000 \<longrightarrow> backoffMs k = 120000)
       \<and> backoffMs n \<le> 120000 \<and> backoffMs 5 = 120000 \<and> backoffMs 1 = 10000
       \<and> backoffMs_cf n = min (30000 * 2 ^ (n - 1)) 300000
       \<and> (n < k \<and> backoffMs_cf n < 300000 \<longrightarrow> backoffMs_cf n < backoffMs_cf k)
       \<and> (n \<le> k \<and> backoffMs_cf n = 300000 \<longrightarrow> backoffMs_cf k = 300000)
       \<and> backoffMs_cf n \<le> 300000 \<and> backoffMs_cf 5 = 300000 \<and> backoffMs_cf 1 = 30000
       \<and> (cIsAnalyzing c \<and> cIsStreamActive c \<and> isMounted
            \<and> captureAndAnalyze c env cap s = Inl err \<and> loopQuotaMarker err
            \<and> errorCountRef s + 1 = n \<longrightarrow>
            (\<not> mustWait now s \<longrightarrow>
               timeoutId (loop c env cap now later isMounted s)
                 = Some (min (10000 * 2 ^ (n - 1)) 120000)
               \<and> nextRetryTimeRef (loop c env cap now later isMounted s)
                   = later + min (10000 * 2 ^ (n - 1)) 120000
               \<and> errorCountRef (loop c env cap now later isMounted s) = n)
            \<and> timeoutId (loop_cf c env cap isMounted s)
                 = Some (min (30000 * 2 ^ (n - 1)) 300000)
            \<and> errorCountRef (loop_cf c env cap isMounted s) = n)"
proof -
  have a: "backoffMs n = min (10000 * 2 ^ (n - 1)) 120000"
    using assms by (rule backoffMs_eq)
  have b: "backoffMs_cf n = min (30000 * 2 ^ (n - 1)) 300000"
    using assms by (rule backoffMs_cf_eq)
  have l: "timeoutId (loop c env cap now later isMounted s)
             = Some (min (10000 * 2 ^ (n - 1)) 120000)
           \<and> nextRetryTimeRef (loop c env cap now later isMounted s)
               = later + min (10000 * 2 ^ (n - 1)) 120000
           \<and> errorCountRef (loop c env cap now later isMounted s) = n"
    if "cIsAnalyzing c" "cIsStreamActive c" "isMounted"
       "captureAndAnalyze c env cap s = Inl err" "loopQuotaMarker err"
       "errorCountRef s + 1 = n" "\<not> mustWait now s"
    using loop_quota [OF that(1,2,7,3,4,5), of later] that(6) a by simp
  have lcf: "timeoutId (loop_cf c env cap isMounted s)
               = Some (min (30000 * 2 ^ (n - 1)) 300000)
             \<and> errorCountRef (loop_cf c env cap isMounted s) = n"
    if "cIsAnalyzing c" "cIsStreamActive c" "isMounted"
       "captureAndAnalyze c env cap s = Inl err" "loopQuotaMarker err"
       "errorCountRef s + 1 = n"
    using loop_cf_quota [OF that(1,2,3,4,5)] that(6) b by simp
  show ?thesis
    using assms a b l lcf
      backoffMs_strict [of n k] backoffMs_const [of n k] backoffMs_le [of n] backoffMs_5
      backoffMs_cf_strict [of n k] backoffMs_cf_const [of n k] backoffMs_cf_le [of n]
      backoffMs_cf_5 backoffMs_1
    by blast
qed

lemma quotaEnv_throws:
  "captureAndAnalyze appClosure quotaEnv (Frame ''img'') s = Inl (newError ''QUOTA_EXCEEDED'')"
  by (simp add: captureAndAnalyze_def appClosure_def quotaEnv_def serviceEnv_def
      analyzeTrafficFrame_def absent_def requestAndParse_def serviceCatch_def
      serviceQuotaMarker_def newError_def captureCatch_def)

lemma quota_marked: "loopQuotaMarker (newError ''QUOTA_EXCEEDED'')"
  by (simp add: loopQuotaMarker_def newError_def)

theorem backoff_doubles_to_ceiling_witness:
  "(1::nat) \<le> 3 \<and> backoffMs 3 = 40000 \<and> backoffMs 3 < backoffMs 4
   \<and> backoffMs_cf 3 = 120000 \<and> backoffMs_cf 3 < backoffMs_cf 4
   \<and> timeoutId (loop appClosure quotaEnv (Frame ''img'') 5000 5200 True
        (runningState\<lparr>errorCountRef := 2\<rparr>)) = Some 40000
   \<and> nextRetryTimeRef (loop appClosure quotaEnv (Frame ''img'') 5000 5200 True
        (runningState\<lparr>errorCountRef := 2\<rparr>)) = 45200
   \<and> timeoutId (loop_cf appClosure quotaEnv (Frame ''img'') True
        (runningState\<lparr>errorCountRef := 2\<rparr>)) = Some 120000"
  using backoff_doubles_to_ceiling [where n = 3 and k = 4 and c = appClosure
      and env = quotaEnv and cap = "Frame ''img''" and s = "runningState\<lparr>errorCountRef := 2\<rparr>"
      and err = "newError ''QUOTA_EXCEEDED''" and isMounted = True and now = 5000
      and later = 5200]
    quotaEnv_throws quota_marked
  by (auto simp: appClosure_def runningState_def initialState_def mustWait_def)

section \<open>Normal returns of the capture\<close>

lemma captureAndAnalyze_returns_any:
  "captureAndAnalyze c env cap s = Inr s' \<Longrightarrow> \<exists>t'. captureAndAnalyze c env cap t = Inr t'"
proof -
  assume r: "captureAndAnalyze c env cap s = Inr s'"
  show ?thesis
  proof (cases "captureAndAnalyze c env cap t")
    case (Inl e)
    then have "captureAndAnalyze c env cap s = Inl e" by (rule captureAndAnalyze_throws_any)
    with r show ?thesis by simp
  next
    case (Inr t')
    then show ?thesis by blast
  qed
qed

lemma captureAndAnalyze_keeps_refs:
  "captureAndAnalyze c env cap s = Inr s' \<Longrightarrow>
     nextRetryTimeRef s' = nextRetryTimeRef s \<and> errorCountRef s' = errorCountRef s"
  by (auto simp: captureAndAnalyze_def captureCatch_def handleError_def
      handleAnalysisComplete_def split: if_splits capture.splits sum.splits)

lemma loop_cf_returns:
  assumes "cIsAnalyzing c" "cIsStreamActive c" "isMounted"
    and "captureAndAnalyze c env cap s = Inr s'"
  shows "errorCountRef (loop_cf c env cap isMounted s) = 0
       \<and> \<not> isRateLimited (loop_cf c env cap isMounted s)
       \<and> timeoutId (loop_cf c env cap isMounted s) = Some (intervalMs c)"
proof -
  obtain t' where "captureAndAnalyze c env cap (s\<lparr>timeoutId := None\<rparr>) = Inr t'"
    using captureAndAnalyze_returns_any [OF assms(4)] by blast
  with assms show ?thesis
    by (simp add: loop_cf_def Let_def)
qed

text \<open>
  The state a successful run ends in: the result is recorded, the failure counter is 0,
  the flag is cleared and a timer of \<open>intervalMs\<close> is set. The earlier revision has no
  effect dependency on the flag, so there the timer stands whatever the state before.
\<close>

lemma loop_success_state:
  assumes "cIsAnalyzing c" "cIsStreamActive c" "\<not> mustWait now s"
    and "analyzeTrafficFrame env img = Inr result"
  shows "loop c env (Frame img) now later True s =
           (handleAnalysisComplete result
              (s\<lparr>timeoutId := None, detectedBoxes := detectedObjects result,
                 isRateLimited := False\<rparr>))
             \<lparr>errorCountRef := 0, isRateLimited := False, timeoutId := Some (intervalMs c)\<rparr>"
  using assms
  by (simp add: loop_def cycle_def captureAndAnalyze_def mustWait_def Let_def)

lemma loop_cf_success:
  assumes "cIsAnalyzing c" "cIsStreamActive c" "isMounted"
    and "analyzeTrafficFrame env img = Inr result"
  shows "errorCountRef (loop_cf c env (Frame img) isMounted s) = 0
       \<and> \<not> isRateLimited (loop_cf c env (Frame img) isMounted s)
       \<and> timeoutId (loop_cf c env (Frame img) isMounted s) = Some (intervalMs c)"
proof -
  have "captureAndAnalyze c env (Frame img) s =
          Inr (handleAnalysisComplete result
                 (s\<lparr>detectedBoxes := detectedObjects result, isRateLimited := False\<rparr>))"
    using assms by (simp add: captureAndAnalyze_def)
  then show ?thesis
    using assms(1,2,3) by (rule loop_cf_returns [rotated 3])
qed

lemma okEnv_result:
  "analyzeTrafficFrame okEnv ''img'' =
     Inr \<lparr>vehicleCount = Num 5, congestionLevel = Str ''Medium'',
          description = Str ''steady flow'', detectedObjects = Arr [],
          timestamp = ''12:00:00'', processedAt = 1700000000000\<rparr>"
  by (simp add: analyzeTrafficFrame_def okEnv_def serviceEnv_def absent_def
      requestAndParse_def throwsOnRead_def buildResult_def)

text \<open>
  C4. A run of the loop whose analysis succeeds ends with the failure counter at 0, the
  rate-limited flag cleared and a timer of \<open>intervalMs\<close> set. When the flag was false
  before the run, no dependency of the effect has changed and that timer stands. When
  the flag was true, which is the state after a backoff, clearing it changes the
  dependency \<open>isRateLimited\<close>: the render that follows clears the timer and enters the
  loop again, and since the retry time has passed that run goes straight to a new
  capture at \<open>soon\<close>, any clock value from \<open>now\<close> on, without waiting \<open>intervalMs\<close>.
\<close>

theorem success_after_backoff_runs_again_at_once:
  assumes live: "cIsAnalyzing c" "cIsStreamActive c" "isAnalyzing s" "isStreamActive s"
    and eligible: "\<not> mustWait now s" "now \<le> soon"
    and ok: "analyzeTrafficFrame env img = Inr result"
    and run: "s' = loop c env (Frame img) now later True s"
  shows "errorCountRef s' = 0 \<and> \<not> isRateLimited s' \<and> timeoutId s' = Some (intervalMs c)
       \<and> (isRateLimited s \<longrightarrow>
            effectAfterRender c (isRateLimited s) env' cap' soon later' isMounted s'
              = cycle c env' cap' later' isMounted (s'\<lparr>timeoutId := None\<rparr>))
       \<and> (\<not> isRateLimited s \<longrightarrow>
            effectAfterRender c (isRateLimited s) env' cap' soon later' isMounted s' = s')"
proof -
  have st: "s' = (handleAnalysisComplete result
              (s\<lparr>timeoutId := None, detectedBoxes := detectedObjects result,
                 isRateLimited := False\<rparr>))
             \<lparr>errorCountRef := 0, isRateLimited := False, timeoutId := Some (intervalMs c)\<rparr>"
    unfolding run using live(1,2) eligible(1) ok by (rule loop_success_state)
  have same: "isAnalyzing s' = cIsAnalyzing c" "isStreamActive s' = cIsStreamActive c"
    "\<not> isRateLimited s'" "nextRetryTimeRef s' = nextRetryTimeRef s"
    using live by (simp_all add: st handleAnalysisComplete_def)
  have r: "render (intervalMs c) s' = c"
    using same by (simp add: render_def)
  have nw: "\<not> mustWait soon (s'\<lparr>timeoutId := None\<rparr>)"
    using eligible same(4) by (simp add: mustWait_def)
  have a: "errorCountRef s' = 0 \<and> \<not> isRateLimited s' \<and> timeoutId s' = Some (intervalMs c)"
    by (simp add: st)
  have b: "effectAfterRender c (isRateLimited s) env' cap' soon later' isMounted s'
              = cycle c env' cap' later' isMounted (s'\<lparr>timeoutId := None\<rparr>)"
    if "isRateLimited s"
    using that same live(1,2) nw
    by (simp add: effectAfterRender_def r loopEffect_def loop_def Let_def)
  have d: "effectAfterRender c (isRateLimited s) env' cap' soon later' isMounted s' = s'"
    if "\<not> isRateLimited s"
    using that same by (simp add: effectAfterRender_def)
  from a b d show ?thesis by blast
qed

theorem success_after_backoff_runs_again_at_once_witness:
  "isRateLimited backedOffState
   \<and> timeoutId (loop appClosure okEnv (Frame ''img'') 46000 47000 True backedOffState)
       = Some 20000
   \<and> length (history (loop appClosure okEnv (Frame ''img'') 46000 47000 True backedOffState)) = 1
   \<and> length (history (effectAfterRender appClosure True okEnv (Frame ''img'') 46010 47900 True
        (loop appClosure okEnv (Frame ''img'') 46000 47000 True backedOffState))) = 2
   \<and> effectAfterRender appClosure False okEnv (Frame ''img'') 46010 47900 True
        (loop appClosure okEnv (Frame ''img'') 46000 47000 True runningState)
       = loop appClosure okEnv (Frame ''img'') 46000 47000 True runningState"
  using success_after_backoff_runs_again_at_once [where c = appClosure and env = okEnv
      and img = "''img''" and now = 46000 and later = 47000 and soon = 46010
      and s = backedOffState and env' = okEnv and cap' = "Frame ''img''" and later' = 47900
      and isMounted = True, OF _ _ _ _ _ _ okEnv_result refl]
    success_after_backoff_runs_again_at_once [where c = appClosure and env = okEnv
      and img = "''img''" and now = 46000 and later = 47000 and soon = 46010
      and s = runningState and env' = okEnv and cap' = "Frame ''img''" and later' = 47900
      and isMounted = True, OF _ _ _ _ _ _ okEnv_result refl]
    loop_success_state [where c = appClosure and env = okEnv and img = "''img''"
      and now = 46000 and later = 47000 and s = backedOffState, OF _ _ _ okEnv_result]
    okEnv_result
  by (auto simp: appClosure_def backedOffState_def runningState_def initialState_def
      mustWait_def cycle_def captureAndAnalyze_def handleAnalysisComplete_def slice_last_def)

section \<open>The manual override\<close>

text \<open>
  C5. From every state, so from every state waiting under backoff, the override sets the
  failure counter and the retry time to 0 and clears the flag. The eligibility check of
  the loop then passes at every clock value \<open>now \<ge> 0\<close> (\<^verbatim>\<open>Date.now()\<close> is never
  negative): the next run of the loop goes straight to the capture.
\<close>

theorem force_retry_clears_wait:
  "errorCountRef (handleForceRetry s) = 0
   \<and> nextRetryTimeRef (handleForceRetry s) = 0
   \<and> \<not> isRateLimited (handleForceRetry s)
   \<and> (0 \<le> now \<longrightarrow> \<not> mustWait now (handleForceRetry s))
   \<and> (0 \<le> now \<and> cIsAnalyzing c \<and> cIsStreamActive c \<longrightarrow>
        loop c env cap now later isMounted (handleForceRetry s)
          = cycle c env cap later isMounted ((handleForceRetry s)\<lparr>timeoutId := None\<rparr>))"
  by (simp add: handleForceRetry_def mustWait_def loop_def Let_def)

theorem force_retry_clears_wait_witness:
  "mustWait 6000 backedOffState
   \<and> \<not> mustWait 6000 (handleForceRetry backedOffState)
   \<and> errorCountRef (handleForceRetry backedOffState) = 0
   \<and> timeoutId (loop appClosure okEnv (Frame ''img'') 6000 7000 True
        (handleForceRetry backedOffState)) = Some 20000"
  using force_retry_clears_wait [where s = backedOffState and now = 6000
      and c = appClosure and env = okEnv and cap = "Frame ''img''" and later = 7000
      and isMounted = True] okEnv_result
  by (simp add: appClosure_def backedOffState_def runningState_def initialState_def
      mustWait_def cycle_def captureAndAnalyze_def handleAnalysisComplete_def
      handleForceRetry_def)

section \<open>Failures without a quota marker\<close>

text \<open>
  C6. When a run of the loop fails with an error in which the loop finds no quota marker,
  and the counter was 0 and the flag false, the next run is scheduled after exactly
  \<open>3/2\<close> of \<open>intervalMs\<close>, the counter is still 0, the flag still false and the retry
  time unchanged; in the current loop and in the earlier revision.
\<close>

theorem unrecognized_error_slow_retry:
  assumes "cIsAnalyzing c" "cIsStreamActive c" "isMounted"
    and "captureAndAnalyze c env cap s = Inl err" "\<not> loopQuotaMarker err"
    and "errorCountRef s = 0" "\<not> isRateLimited s"
  shows "(\<not> mustWait now s \<longrightarrow>
            timeoutId (loop c env cap now later isMounted s) = Some (intervalMs c * (3 / 2))
            \<and> errorCountRef (loop c env cap now later isMounted s) = 0
            \<and> \<not> isRateLimited (loop c env cap now later isMounted s)
            \<and> nextRetryTimeRef (loop c env cap now later isMounted s) = nextRetryTimeRef s)
       \<and> timeoutId (loop_cf c env cap isMounted s) = Some (intervalMs c * (3 / 2))
       \<and> errorCountRef (loop_cf c env cap isMounted s) = 0
       \<and> \<not> isRateLimited (loop_cf c env cap isMounted s)"
  using loop_other [OF assms(1,2) _ assms(3,4,5), of now later]
    loop_cf_other [OF assms(1,2,3,4,5)] assms(6,7)
  by simp

lemma networkEnv_throws:
  "captureAndAnalyze appClosure networkEnv (Frame ''img'') s = Inl (newError ''Failed to fetch'')"
  by (simp add: captureAndAnalyze_def appClosure_def networkEnv_def serviceEnv_def
      analyzeTrafficFrame_def absent_def requestAndParse_def serviceCatch_def
      serviceQuotaMarker_def newError_def captureCatch_def Let_def)

lemma network_unmarked: "\<not> loopQuotaMarker (newError ''Failed to fetch'')"
  by (simp add: loopQuotaMarker_def newError_def)

theorem unrecognized_error_slow_retry_witness:
  "timeoutId (loop appClosure networkEnv (Frame ''img'') 5000 5200 True runningState)
     = Some 30000
   \<and> errorCountRef (loop appClosure networkEnv (Frame ''img'') 5000 5200 True runningState) = 0
   \<and> \<not> isRateLimited (loop appClosure networkEnv (Frame ''img'') 5000 5200 True runningState)
   \<and> timeoutId (loop_cf appClosure networkEnv (Frame ''img'') True runningState) = Some 30000"
  using unrecognized_error_slow_retry [where c = appClosure and env = networkEnv
      and cap = "Frame ''img''" and s = runningState and isMounted = True
      and err = "newError ''Failed to fetch''" and now = 5000 and later = 5200]
    networkEnv_throws network_unmarked
  by (auto simp: appClosure_def runningState_def initialState_def mustWait_def)

section \<open>Cross-origin capture failures\<close>

lemma security_error_swallowed:
  "cIsStreamActive c \<Longrightarrow> ename err = ''SecurityError'' \<Longrightarrow>
     captureAndAnalyze c env (CaptureThrows err) s = Inr (handleError corsMessage s)"
  by (simp add: captureAndAnalyze_def captureCatch_def)

text \<open>
  C7. A SecurityError thrown while the frame is drawn or read never reaches the loop's
  \<^verbatim>\<open>catch\<close>: the capture reports it through \<^verbatim>\<open>onError\<close>, which puts the CORS message
  in the application's \<open>error\<close> (the banner), and returns normally. The run of the loop
  does not raise the failure counter, leaves the retry time as it was and does not set
  the rate-limited flag; in the current loop and in the earlier revision.
\<close>

theorem security_error_surfaced_without_backoff:
  assumes "cIsAnalyzing c" "cIsStreamActive c" "ename err = ''SecurityError''"
  shows "captureAndAnalyze c env (CaptureThrows err) s = Inr (handleError corsMessage s)
       \<and> (\<not> mustWait now s \<longrightarrow>
            error (loop c env (CaptureThrows err) now later isMounted s) = Some corsMessage
            \<and> errorCountRef (loop c env (CaptureThrows err) now later isMounted s)
                \<le> errorCountRef s
            \<and> nextRetryTimeRef (loop c env (CaptureThrows err) now later isMounted s)
                = nextRetryTimeRef s
            \<and> (isRateLimited (loop c env (CaptureThrows err) now later isMounted s)
                  \<longrightarrow> isRateLimited s))
       \<and> error (loop_cf c env (CaptureThrows err) isMounted s) = Some corsMessage
       \<and> errorCountRef (loop_cf c env (CaptureThrows err) isMounted s) \<le> errorCountRef s
       \<and> (isRateLimited (loop_cf c env (CaptureThrows err) isMounted s) \<longrightarrow> isRateLimited s)"
  using assms
  by (simp add: loop_def loop_cf_def cycle_def Let_def security_error_swallowed
      handleError_def mustWait_def)

theorem security_error_surfaced_without_backoff_witness:
  "error (loop appClosure okEnv (CaptureThrows corsError) 5000 5200 True
            (runningState\<lparr>errorCountRef := 2, nextRetryTimeRef := 4000\<rparr>)) = Some corsMessage
   \<and> errorCountRef (loop appClosure okEnv (CaptureThrows corsError) 5000 5200 True
            (runningState\<lparr>errorCountRef := 2, nextRetryTimeRef := 4000\<rparr>)) \<le> 2
   \<and> nextRetryTimeRef (loop appClosure okEnv (CaptureThrows corsError) 5000 5200 True
            (runningState\<lparr>errorCountRef := 2, nextRetryTimeRef := 4000\<rparr>)) = 4000
   \<and> \<not> isRateLimited (loop appClosure okEnv (CaptureThrows corsError) 5000 5200 True
            (runningState\<lparr>errorCountRef := 2, nextRetryTimeRef := 4000\<rparr>))"
  using security_error_surfaced_without_backoff [where c = appClosure and env = okEnv
      and err = corsError and now = 5000 and later = 5200 and isMounted = True
      and s = "runningState\<lparr>errorCountRef := 2, nextRetryTimeRef := 4000\<rparr>"]
  by (simp add: appClosure_def corsError_def runningState_def initialState_def mustWait_def)

section \<open>The retry time\<close>

lemma cycle_retry_time:
  assumes "nextRetryTimeRef s \<le> later"
  shows "nextRetryTimeRef s \<le> nextRetryTimeRef (cycle c env cap later isMounted s)"
proof (cases "captureAndAnalyze c env cap s")
  case (Inl err)
  have "nextRetryTimeRef s \<le> later + backoffMs (errorCountRef s + 1)"
    using assms backoffMs_pos [of "errorCountRef s + 1"] by linarith
  with Inl show ?thesis by (simp add: cycle_def Let_def)
next
  case (Inr s')
  then have "nextRetryTimeRef s' = nextRetryTimeRef s"
    by (simp add: captureAndAnalyze_keeps_refs)
  with Inr show ?thesis by (simp add: cycle_def)
qed

lemma loop_retry_time:
  assumes "now \<le> later"
  shows "nextRetryTimeRef s \<le> nextRetryTimeRef (loop c env cap now later isMounted s)"
proof -
  let ?s = "s\<lparr>timeoutId := None\<rparr>"
  have "nextRetryTimeRef ?s \<le> nextRetryTimeRef (cycle c env cap later isMounted ?s)"
    if "\<not> mustWait now ?s"
  proof (rule cycle_retry_time)
    from that assms show "nextRetryTimeRef ?s \<le> later" by (simp add: mustWait_def)
  qed
  then show ?thesis by (simp add: loop_def Let_def)
qed

lemma loop_step_retry_time:
  "ordinaryStep ev \<Longrightarrow> nextRetryTimeRef s \<le> nextRetryTimeRef (loop_step c s ev)"
  by (cases ev) (simp_all add: loop_retry_time)

lemma loop_run_retry_time:
  "list_all ordinaryStep evs \<Longrightarrow>
     nextRetryTimeRef s \<le> nextRetryTimeRef (foldl (loop_step c) s evs)"
proof (induction evs arbitrary: s)
  case Nil
  then show ?case by simp
next
  case (Cons ev evs)
  then have "nextRetryTimeRef s \<le> nextRetryTimeRef (loop_step c s ev)"
    by (simp add: loop_step_retry_time)
  also have "\<dots> \<le> nextRetryTimeRef (foldl (loop_step c) (loop_step c s ev) evs)"
    using Cons by simp
  finally show ?case by simp
qed

lemma loopEffect_stopped:
  "\<not> (cIsAnalyzing c \<and> cIsStreamActive c) \<Longrightarrow>
     nextRetryTimeRef (loopEffect c env cap now later isMounted s) = 0
     \<and> errorCountRef (loopEffect c env cap now later isMounted s) = 0
     \<and> \<not> isRateLimited (loopEffect c env cap now later isMounted s)
     \<and> timeoutId (loopEffect c env cap now later isMounted s) = None"
  by (auto simp: loopEffect_def)

text \<open>
  C9. While the loop runs, the retry time never decreases from one step to the next,
  unless the step is the manual override, which sets it to 0. A step is a run of the loop
  (on a clock that does not go back between its two readings) or the override; a
  successful run leaves the retry time as it is. The same holds along every sequence of
  runs of the loop.
\<close>

theorem retry_time_never_decreases:
  "(ordinaryStep ev \<longrightarrow> nextRetryTimeRef s \<le> nextRetryTimeRef (loop_step c s ev))
   \<and> (list_all ordinaryStep evs \<longrightarrow>
        nextRetryTimeRef s \<le> nextRetryTimeRef (foldl (loop_step c) s evs))
   \<and> nextRetryTimeRef (loop_step c s ForceRetry) = 0"
  by (simp add: loop_step_retry_time loop_run_retry_time handleForceRetry_def)

theorem retry_time_never_decreases_witness:
  "nextRetryTimeRef runningState = 0
   \<and> nextRetryTimeRef (loop_step appClosure runningState
        (Cycle quotaEnv (Frame ''img'') 5000 5200 True)) = 15200
   \<and> nextRetryTimeRef (foldl (loop_step appClosure) runningState
        [Cycle quotaEnv (Frame ''img'') 5000 5200 True,
         Cycle quotaEnv (Frame ''img'') 6200 6200 True,
         Cycle okEnv (Frame ''img'') 15200 15900 True]) = 15200
   \<and> nextRetryTimeRef (loop_step appClosure
        (loop_step appClosure runningState (Cycle quotaEnv (Frame ''img'') 5000 5200 True))
        ForceRetry) = 0"
  using retry_time_never_decreases [where s = runningState and c = appClosure
      and ev = "Cycle quotaEnv (Frame ''img'') 5000 5200 True"
      and evs = "[Cycle quotaEnv (Frame ''img'') 5000 5200 True,
         Cycle quotaEnv (Frame ''img'') 6200 6200 True,
         Cycle okEnv (Frame ''img'') 15200 15900 True]"]
    quotaEnv_throws quota_marked okEnv_result
  by (simp add: appClosure_def runningState_def initialState_def loop_def cycle_def
      mustWait_def Let_def backoffMs_def handleForceRetry_def captureAndAnalyze_def
      handleAnalysisComplete_def)

section \<open>What stops the analysis\<close>

lemma noKey_throws:
  "absent (apiKey env) \<Longrightarrow>
     analyzeTrafficFrame env img = Inl (newError ''API Key not found in environment variables.'')"
  by (simp add: analyzeTrafficFrame_def)

lemma noKey_unmarked:
  "\<not> loopQuotaMarker (newError ''API Key not found in environment variables.'')"
  by (simp add: loopQuotaMarker_def newError_def)

lemma noKey_reaches_loop:
  "cIsStreamActive c \<Longrightarrow> absent (apiKey env) \<Longrightarrow>
     captureAndAnalyze c env (Frame img) s
       = Inl (newError ''API Key not found in environment variables.'')"
  by (simp add: captureAndAnalyze_def noKey_throws captureCatch_def newError_def)

lemma captureAndAnalyze_stops_only_on_security:
  assumes "captureAndAnalyze c env cap s = Inr s'" "isAnalyzing s" "\<not> isAnalyzing s'"
  shows "\<exists>e. raisedInCapture env cap = Some e \<and> ename e = ''SecurityError''"
  using assms
  by (auto simp: captureAndAnalyze_def captureCatch_def raisedInCapture_def handleError_def
      handleAnalysisComplete_def split: if_splits capture.splits sum.splits)

lemma cycle_isAnalyzing:
  "isAnalyzing (cycle c env cap later isMounted s) =
     (case captureAndAnalyze c env cap s of Inl e \<Rightarrow> isAnalyzing s | Inr s' \<Rightarrow> isAnalyzing s')"
  by (simp add: cycle_def Let_def split: sum.splits)

lemma loop_stops_only_on_security:
  assumes "isAnalyzing s" "\<not> isAnalyzing (loop c env cap now later isMounted s)"
  shows "\<exists>e. raisedInCapture env cap = Some e \<and> ename e = ''SecurityError''"
proof -
  let ?s = "s\<lparr>timeoutId := None\<rparr>"
  from assms have run: "loop c env cap now later isMounted s = cycle c env cap later isMounted ?s"
    by (auto simp: loop_def Let_def split: if_splits)
  with assms(2) have off: "\<not> isAnalyzing (cycle c env cap later isMounted ?s)" by simp
  show ?thesis
  proof (cases "captureAndAnalyze c env cap ?s")
    case (Inl e)
    with off assms(1) show ?thesis by (simp add: cycle_isAnalyzing)
  next
    case (Inr s')
    with off have "\<not> isAnalyzing s'" by (simp add: cycle_isAnalyzing)
    with Inr assms(1) show ?thesis
      by (intro captureAndAnalyze_stops_only_on_security [of c env cap ?s s']) simp_all
  qed
qed

text \<open>
  C2 as stated fails on the missing credential. With no API key the analyzer throws its
  configuration error; the loop finds no quota marker in it and schedules the next run
  after 30000 ms, analysis stays on and no error is shown. An error that is neither a
  configuration nor a permission error, the SecurityError of a cross-origin frame, does
  switch analysis off.
\<close>

theorem missing_credential_keeps_looping:
  "analyzeTrafficFrame noKeyEnv ''img''
     = Inl (newError ''API Key not found in environment variables.'')
   \<and> isAnalyzing (loop appClosure noKeyEnv (Frame ''img'') 5000 5200 True runningState)
   \<and> timeoutId (loop appClosure noKeyEnv (Frame ''img'') 5000 5200 True runningState)
       = Some 30000
   \<and> error (loop appClosure noKeyEnv (Frame ''img'') 5000 5200 True runningState) = None
   \<and> \<not> isAnalyzing (loop appClosure okEnv (CaptureThrows corsError) 5000 5200 True runningState)"
proof -
  have off: "\<not> isAnalyzing (loop appClosure okEnv (CaptureThrows corsError) 5000 5200 True runningState)"
    by (simp add: loop_def cycle_def Let_def appClosure_def runningState_def initialState_def
        mustWait_def captureAndAnalyze_def captureCatch_def corsError_def handleError_def)
  have k: "absent (apiKey noKeyEnv)" by (simp add: noKeyEnv_def serviceEnv_def absent_def)
  have "captureAndAnalyze appClosure noKeyEnv (Frame ''img'') runningState
          = Inl (newError ''API Key not found in environment variables.'')"
    by (rule noKey_reaches_loop) (simp_all add: appClosure_def k)
  then have "loop appClosure noKeyEnv (Frame ''img'') 5000 5200 True runningState
               = runningState\<lparr>timeoutId := Some (intervalMs appClosure * (3 / 2))\<rparr>"
    by (intro loop_other [where err = "newError ''API Key not found in environment variables.''"])
       (simp_all add: appClosure_def mustWait_def runningState_def initialState_def
          noKey_unmarked)
  then show ?thesis
    using noKey_throws [OF k] off
    by (simp add: appClosure_def runningState_def initialState_def)
qed

text \<open>
  C2, amended. No error that reaches the loop's \<^verbatim>\<open>catch\<close> stops the analysis: the run
  leaves \<open>isAnalyzing\<close> and \<open>error\<close> as they were and schedules the next run, after the
  backoff when the loop finds a quota marker and after \<open>3/2\<close> of \<open>intervalMs\<close> otherwise.
  The missing-credential error is one of these and carries no quota marker. A run of the
  loop switches analysis off only when an error named SecurityError was raised inside the
  capture; a failed camera acquisition switches it off as well.
\<close>

theorem thrown_errors_are_absorbed:
  assumes "cIsAnalyzing c" "cIsStreamActive c" "isMounted"
    and "captureAndAnalyze c env cap s = Inl err"
  shows "(\<not> mustWait now s \<longrightarrow>
            isAnalyzing (loop c env cap now later isMounted s) = isAnalyzing s
            \<and> error (loop c env cap now later isMounted s) = error s
            \<and> timeoutId (loop c env cap now later isMounted s)
                = Some (if loopQuotaMarker err then backoffMs (errorCountRef s + 1)
                        else intervalMs c * (3 / 2)))
       \<and> isAnalyzing (loop_cf c env cap isMounted s) = isAnalyzing s
       \<and> error (loop_cf c env cap isMounted s) = error s
       \<and> timeoutId (loop_cf c env cap isMounted s)
           = Some (if loopQuotaMarker err then backoffMs_cf (errorCountRef s + 1)
                   else intervalMs c * (3 / 2))
       \<and> (absent (apiKey env) \<and> cap = Frame img \<longrightarrow>
            err = newError ''API Key not found in environment variables.''
            \<and> \<not> loopQuotaMarker err)
       \<and> (isAnalyzing s \<and> \<not> isAnalyzing (loop c env' cap' now later isMounted s) \<longrightarrow>
            (\<exists>e. raisedInCapture env' cap' = Some e \<and> ename e = ''SecurityError''))
       \<and> \<not> isAnalyzing (startCameraFailed cameraErr s)"
proof -
  have a: "isAnalyzing (loop c env cap now later isMounted s) = isAnalyzing s
            \<and> error (loop c env cap now later isMounted s) = error s
            \<and> timeoutId (loop c env cap now later isMounted s)
                = Some (if loopQuotaMarker err then backoffMs (errorCountRef s + 1)
                        else intervalMs c * (3 / 2))"
    if w: "\<not> mustWait now s"
  proof (cases "loopQuotaMarker err")
    case True
    show ?thesis
      using loop_quota [OF assms(1,2) w assms(3,4) True, of later] True by simp
  next
    case False
    show ?thesis
      using loop_other [OF assms(1,2) w assms(3,4) False, of later] False by simp
  qed
  have b: "isAnalyzing (loop_cf c env cap isMounted s) = isAnalyzing s
       \<and> error (loop_cf c env cap isMounted s) = error s
       \<and> timeoutId (loop_cf c env cap isMounted s)
           = Some (if loopQuotaMarker err then backoffMs_cf (errorCountRef s + 1)
                   else intervalMs c * (3 / 2))"
  proof (cases "loopQuotaMarker err")
    case True
    show ?thesis
      using loop_cf_quota [OF assms(1,2,3,4) True] True by simp
  next
    case False
    show ?thesis
      using loop_cf_other [OF assms(1,2,3,4) False] False by simp
  qed
  have k: "err = newError ''API Key not found in environment variables.'' \<and> \<not> loopQuotaMarker err"
    if "absent (apiKey env)" "cap = Frame img"
    using noKey_reaches_loop [OF assms(2) that(1), of img s] assms(4) that(2) noKey_unmarked
    by simp
  have d: "\<not> isAnalyzing (startCameraFailed cameraErr s)"
    by (simp add: startCameraFailed_def handleError_def)
  show ?thesis
    using a b k d loop_stops_only_on_security [of s c env' cap' now later isMounted]
    by blast
qed

theorem thrown_errors_are_absorbed_witness:
  "timeoutId (loop appClosure noKeyEnv (Frame ''img'') 5000 5200 True runningState) = Some 30000
   \<and> isAnalyzing (loop appClosure noKeyEnv (Frame ''img'') 5000 5200 True runningState)
   \<and> timeoutId (loop_cf appClosure noKeyEnv (Frame ''img'') True runningState) = Some 30000
   \<and> \<not> isAnalyzing (loop appClosure okEnv (CaptureThrows corsError) 5000 5200 True runningState)
   \<and> raisedInCapture okEnv (CaptureThrows corsError) = Some corsError
   \<and> \<not> isAnalyzing (startCameraFailed corsError runningState)"
proof -
  have k: "absent (apiKey noKeyEnv)" by (simp add: noKeyEnv_def serviceEnv_def absent_def)
  have t: "captureAndAnalyze appClosure noKeyEnv (Frame ''img'') runningState
          = Inl (newError ''API Key not found in environment variables.'')"
    by (rule noKey_reaches_loop) (simp_all add: appClosure_def k)
  have off: "\<not> isAnalyzing (loop appClosure okEnv (CaptureThrows corsError) 5000 5200 True runningState)"
    by (simp add: loop_def cycle_def Let_def appClosure_def runningState_def initialState_def
        mustWait_def captureAndAnalyze_def captureCatch_def corsError_def handleError_def)
  have r: "raisedInCapture okEnv (CaptureThrows corsError) = Some corsError"
    by (simp add: raisedInCapture_def)
  show ?thesis
    using thrown_errors_are_absorbed [where c = appClosure and env = noKeyEnv
        and cap = "Frame ''img''" and s = runningState and isMounted = True
        and err = "newError ''API Key not found in environment variables.''"
        and now = 5000 and later = 5200 and img = "''img''" and env' = okEnv
        and cap' = "CaptureThrows corsError" and cameraErr = corsError, OF _ _ _ t]
      k off r noKey_unmarked
    by (simp add: appClosure_def runningState_def initialState_def mustWait_def)
qed

section \<open>What the analyzer accepts\<close>

lemma requestAndParse_accepts:
  assumes "requestAndParse env img = Inr r"
  shows "\<exists>text json. generateContent env img = Inr (Some text) \<and> text \<noteq> []
           \<and> JSON_parse env text = Inr json \<and> \<not> throwsOnRead json
           \<and> r = buildResult env json"
  using assms
  by (auto simp: requestAndParse_def split: sum.splits option.splits if_splits)

lemma analyzeTrafficFrame_accepts:
  assumes "analyzeTrafficFrame env img = Inr r"
  shows "requestAndParse env img = Inr r"
  using assms by (auto simp: analyzeTrafficFrame_def split: if_splits sum.splits)

text \<open>
  C8 as stated fails on a response that is an object with no fields: the analyzer
  accepts it, and the result it returns has \<open>undefined\<close> for the count, the level and the
  description.
\<close>

theorem missing_fields_are_propagated:
  "analyzeTrafficFrame emptyObjectEnv ''img'' =
     Inr \<lparr>vehicleCount = Undefined, congestionLevel = Undefined, description = Undefined,
          detectedObjects = Arr [], timestamp = ''12:00:00'', processedAt = 1700000000000\<rparr>
   \<and> \<not> fullyTyped
         \<lparr>vehicleCount = Undefined, congestionLevel = Undefined, description = Undefined,
          detectedObjects = Arr [], timestamp = ''12:00:00'', processedAt = 1700000000000\<rparr>"
  by (simp add: analyzeTrafficFrame_def emptyObjectEnv_def serviceEnv_def absent_def
      requestAndParse_def throwsOnRead_def buildResult_def fullyTyped_def isCount_def)

text \<open>
  C8, amended. Every accepted response had a non-empty text that parsed to a value other
  than \<open>null\<close>. In the result, \<open>detectedObjects\<close> is the parsed field when that is truthy
  and the empty array otherwise, so a missing field gives the empty array; the count, the
  level and the description are the parsed fields as they are, \<open>undefined\<close> when missing.
\<close>

theorem accepted_response_copies_fields:
  assumes "analyzeTrafficFrame env img = Inr r"
  shows "\<exists>text json. generateContent env img = Inr (Some text) \<and> text \<noteq> []
           \<and> JSON_parse env text = Inr json \<and> json \<noteq> Null
           \<and> vehicleCount r = property json ''vehicleCount''
           \<and> congestionLevel r = property json ''congestionLevel''
           \<and> description r = property json ''description''
           \<and> detectedObjects r =
               (if truthy (property json ''detectedObjects'')
                then property json ''detectedObjects'' else Arr [])
           \<and> (property json ''detectedObjects'' = Undefined \<longrightarrow> detectedObjects r = Arr [])"
proof -
  from assms have "requestAndParse env img = Inr r" by (rule analyzeTrafficFrame_accepts)
  then obtain body json where
    "generateContent env img = Inr (Some body)" "body \<noteq> []"
    "JSON_parse env body = Inr json" "\<not> throwsOnRead json" "r = buildResult env json"
    using requestAndParse_accepts by blast
  then show ?thesis
    by (intro exI [of _ body] exI [of _ json]) (simp add: buildResult_def throwsOnRead_def)
qed

lemma emptyObject_accepted:
  "analyzeTrafficFrame emptyObjectEnv ''img'' =
     Inr \<lparr>vehicleCount = Undefined, congestionLevel = Undefined, description = Undefined,
          detectedObjects = Arr [], timestamp = ''12:00:00'', processedAt = 1700000000000\<rparr>"
  by (simp add: analyzeTrafficFrame_def emptyObjectEnv_def serviceEnv_def absent_def
      requestAndParse_def throwsOnRead_def buildResult_def)

theorem accepted_response_copies_fields_witness:
  "analyzeTrafficFrame emptyObjectEnv ''img'' =
     Inr \<lparr>vehicleCount = Undefined, congestionLevel = Undefined, description = Undefined,
          detectedObjects = Arr [], timestamp = ''12:00:00'', processedAt = 1700000000000\<rparr>
   \<and> JSON_parse emptyObjectEnv ''{}'' = Inr (Obj [])
   \<and> property (Obj []) ''detectedObjects'' = Undefined
   \<and> property (Obj []) ''vehicleCount'' = Undefined"
  using accepted_response_copies_fields [OF emptyObject_accepted] emptyObject_accepted
  by (simp add: emptyObjectEnv_def serviceEnv_def)

end
